theory Spec2Isabelle
  imports Main "HOL-Library.Sublist"
begin

section \<open>Python values, formatting and errors\<close>

text \<open>
  The values that occur in \<^verbatim>\<open>candidate_models/base_models/__init__.py\<close>: integer
  literals, float literals and strings. Every float of the module is a decimal literal with
  at most two places (\<^verbatim>\<open>1.0, 0.75, 0.5, 0.25, 1.4, 1.3, 0.35\<close>); \<open>PFloat c\<close> stands
  for the float whose literal is \<open>c\<close> hundredths. Two floats written by the same literal
  are the same double, so \<^verbatim>\<open>==\<close> and \<^verbatim>\<open>in\<close> on them are equality of \<open>c\<close>.
\<close>

datatype pyval = PInt int | PFloat nat | PStr string

datatype error =
    Name_Error string
  | Duplicate_Key string
  | Not_Found string
  | Assertion_Error
  | Value_Error string
  | Storage_Error string
  | Factory_Error string

definition digit_char :: "nat \<Rightarrow> char" where
  "digit_char d = ''0123456789'' ! d"

fun show_nat :: "nat \<Rightarrow> string" where
  "show_nat n = (if n < 10 then [digit_char n] else show_nat (n div 10) @ [digit_char (n mod 10)])"

declare show_nat.simps [simp del]

text \<open>\<^verbatim>\<open>str(i)\<close> of a Python int.\<close>

definition show_int :: "int \<Rightarrow> string" where
  "show_int i = (if i < 0 then CHR ''-'' # show_nat (nat (- i)) else show_nat (nat i))"

text \<open>
  \<^verbatim>\<open>repr(x)\<close> of a non-negative float given in hundredths: the integer part, a point, and
  the shortest fraction that reads back as the same value, with at least one digit
  (\<^verbatim>\<open>1.0\<close>, \<^verbatim>\<open>0.75\<close>, \<^verbatim>\<open>0.5\<close>, \<^verbatim>\<open>75.0\<close>).
\<close>

definition repr_float :: "nat \<Rightarrow> string" where
  "repr_float c =
     show_nat (c div 100) @ ''.'' @
       (if c mod 10 = 0 then [digit_char (c mod 100 div 10)]
        else [digit_char (c mod 100 div 10), digit_char (c mod 10)])"

text \<open>
  The format specification \<^verbatim>\<open>03\<close> on a non-negative float: its \<^verbatim>\<open>repr\<close>, padded on
  the left with zeros to at least three characters.
\<close>

definition format_03 :: "nat \<Rightarrow> string" where
  "format_03 c = replicate (3 - length (repr_float c)) (CHR ''0'') @ repr_float c"

text \<open>
  \<^verbatim>\<open>multiplier * 100\<close>. For the four multipliers the module multiplies
  (\<^verbatim>\<open>0.75, 0.5, 0.25, 1.4\<close>) the double product is the exact decimal product
  (\<^verbatim>\<open>75.0, 50.0, 25.0, 140.0\<close>), which is what this computes in hundredths.
\<close>

definition float_mul_100 :: "nat \<Rightarrow> nat" where
  "float_mul_100 c = c * 100"

section \<open>Dictionaries\<close>

text \<open>
  A Python \<^verbatim>\<open>dict\<close> keeps insertion order, and \<^verbatim>\<open>d[k] = v\<close> replaces the value of
  a key that is present in place: an association list with distinct keys.
\<close>

fun dict_setitem :: "(string \<times> 'v) list \<Rightarrow> string \<Rightarrow> 'v \<Rightarrow> (string \<times> 'v) list" where
  "dict_setitem [] k v = [(k, v)]"
| "dict_setitem ((k', v') # d) k v =
     (if k' = k then (k, v) # d else (k', v') # dict_setitem d k v)"

text \<open>
  Modelled from the spec: the class \<^verbatim>\<open>UniqueKeyDict\<close> of \<^verbatim>\<open>candidate_models.utils\<close>
  is not among the sources. Section 4.2: it behaves as an ordinary mapping (set, get,
  delete, iteration) except that set fails with a Duplicate-Key error if the key is
  already present. Each operation returns its result and the dictionary after it, so that
  what a failed operation leaves behind is part of the model.
\<close>

definition ukd_setitem ::
  "(string \<times> 'v) list \<Rightarrow> string \<Rightarrow> 'v \<Rightarrow> (error + unit) \<times> (string \<times> 'v) list" where
  "ukd_setitem d k v =
     (if k \<in> set (map fst d) then (Inl (Duplicate_Key k), d)
      else (Inr (), dict_setitem d k v))"

definition ukd_getitem :: "(string \<times> 'v) list \<Rightarrow> string \<Rightarrow> error + 'v" where
  "ukd_getitem d k = (case map_of d k of None \<Rightarrow> Inl (Not_Found k) | Some v \<Rightarrow> Inr v)"

definition ukd_delitem ::
  "(string \<times> 'v) list \<Rightarrow> string \<Rightarrow> (error + unit) \<times> (string \<times> 'v) list" where
  "ukd_delitem d k =
     (if k \<in> set (map fst d) then (Inr (), filter (\<lambda>kv. fst kv \<noteq> k) d)
      else (Inl (Not_Found k), d))"

definition ukd_keys :: "(string \<times> 'v) list \<Rightarrow> string list" where
  "ukd_keys d = map fst d"

section \<open>The lazy registry\<close>

text \<open>
  A zero-argument Python callable is a state transformer on the world \<open>'w\<close> it can read
  and change; it returns a value or raises.
\<close>

type_synonym ('w, 'v) factory = "'w \<Rightarrow> (error + 'v) \<times> 'w"

text \<open>
  Modelled from the spec: the class \<^verbatim>\<open>LazyLoad\<close> of \<^verbatim>\<open>brainscore.utils\<close> is not among
  the sources; only its use at line 159 is. Section 4.1: register stores an unrealized
  entry; get returns the realized value: if unrealized, it invokes the factory with no
  arguments, stores the result under the key, marks it realized and returns it; if
  already realized, it returns the cached value without invoking the factory again; get
  on a missing key fails with a Not-Found error; an error raised inside a factory
  propagates and the entry remains unrealized; keys enumerates the identifiers without
  forcing realization and items forces realization of every entry it yields.
\<close>

record ('w, 'v) lazy_load =
  load_fnc :: "('w, 'v) factory"
  content :: "'v option"

type_synonym ('w, 'v) registry = "(string \<times> ('w, 'v) lazy_load) list"

definition LazyLoad :: "('w, 'v) factory \<Rightarrow> ('w, 'v) lazy_load" where
  "LazyLoad f = \<lparr>load_fnc = f, content = None\<rparr>"

definition register ::
  "('w, 'v) registry \<Rightarrow> string \<Rightarrow> ('w, 'v) factory \<Rightarrow> (error + unit) \<times> ('w, 'v) registry" where
  "register r k f = ukd_setitem r k (LazyLoad f)"

definition registry_get ::
  "('w, 'v) registry \<Rightarrow> string \<Rightarrow> 'w \<Rightarrow> (error + 'v) \<times> ('w, 'v) registry \<times> 'w" where
  "registry_get r k w =
     (case map_of r k of
        None \<Rightarrow> (Inl (Not_Found k), r, w)
      | Some e \<Rightarrow>
          (case content e of
             Some v \<Rightarrow> (Inr v, r, w)
           | None \<Rightarrow>
               (case load_fnc e w of
                  (Inl err, w') \<Rightarrow> (Inl err, r, w')
                | (Inr v, w') \<Rightarrow> (Inr v, dict_setitem r k (e\<lparr>content := Some v\<rparr>), w'))))"

definition registry_keys ::
  "('w, 'v) registry \<Rightarrow> 'w \<Rightarrow> string list \<times> ('w, 'v) registry \<times> 'w" where
  "registry_keys r w = (map fst r, r, w)"

fun items_loop ::
  "('w, 'v) registry \<Rightarrow> string list \<Rightarrow> 'w \<Rightarrow>
     (error + (string \<times> 'v) list) \<times> ('w, 'v) registry \<times> 'w" where
  "items_loop r [] w = (Inr [], r, w)"
| "items_loop r (k # ks) w =
     (case registry_get r k w of
        (Inl e, r', w') \<Rightarrow> (Inl e, r', w')
      | (Inr v, r', w') \<Rightarrow>
          (case items_loop r' ks w' of
             (Inl e, r'', w'') \<Rightarrow> (Inl e, r'', w'')
           | (Inr kvs, r'', w'') \<Rightarrow> (Inr ((k, v) # kvs), r'', w'')))"

definition registry_items ::
  "('w, 'v) registry \<Rightarrow> 'w \<Rightarrow> (error + (string \<times> 'v) list) \<times> ('w, 'v) registry \<times> 'w" where
  "registry_items r w = items_loop r (map fst r) w"

definition realized :: "('w, 'v) registry \<Rightarrow> string \<Rightarrow> bool" where
  "realized r k = (case map_of r k of Some e \<Rightarrow> content e \<noteq> None | None \<Rightarrow> False)"

text \<open>The value cached for a key, if any.\<close>

definition cached :: "('w, 'v) registry \<Rightarrow> string \<Rightarrow> 'v option" where
  "cached r k = (case map_of r k of Some e \<Rightarrow> content e | None \<Rightarrow> None)"

text \<open>
  Two instrumented factories in the sense of section 8 of the specification. The world is
  the number of invocations so far. The first returns a new handle at every invocation,
  numbered by it, so that two invocations never return the same handle; the second raises
  at its first invocation and returns a handle from then on.
\<close>

definition counting_factory :: "(nat, nat) factory" where
  "counting_factory n = (Inr n, Suc n)"

definition flaky_factory :: "(nat, nat) factory" where
  "flaky_factory n = (if n = 0 then Inl (Factory_Error ''first call'') else Inr n, Suc n)"

section \<open>The module \<^verbatim>\<open>base_models\<close>: descriptor list and its expansion\<close>

text \<open>
  A \<^verbatim>\<open>lambda\<close> without parameters whose body is one call. Its arguments are literals
  or names; a name is a free variable of the lambda, and Python looks it up in the
  module's globals when the lambda is called, not when it is created.
\<close>

datatype expr = Lit pyval | Name string

datatype lambda = Lambda string "expr list" "(string \<times> expr) list"

text \<open>A call with its arguments evaluated: what the external constructor receives.\<close>

datatype call = Call string "pyval list" "(string \<times> pyval) list"

type_synonym env = "string \<rightharpoonup> pyval"

definition eval_expr :: "env \<Rightarrow> expr \<Rightarrow> error + pyval" where
  "eval_expr g e =
     (case e of
        Lit v \<Rightarrow> Inr v
      | Name x \<Rightarrow> (case g x of None \<Rightarrow> Inl (Name_Error x) | Some v \<Rightarrow> Inr v))"

fun eval_args :: "env \<Rightarrow> expr list \<Rightarrow> error + pyval list" where
  "eval_args g [] = Inr []"
| "eval_args g (e # es) =
     (case eval_expr g e of
        Inl err \<Rightarrow> Inl err
      | Inr v \<Rightarrow> (case eval_args g es of Inl err \<Rightarrow> Inl err | Inr vs \<Rightarrow> Inr (v # vs)))"

fun eval_kwargs :: "env \<Rightarrow> (string \<times> expr) list \<Rightarrow> error + (string \<times> pyval) list" where
  "eval_kwargs g [] = Inr []"
| "eval_kwargs g ((n, e) # es) =
     (case eval_expr g e of
        Inl err \<Rightarrow> Inl err
      | Inr v \<Rightarrow> (case eval_kwargs g es of Inl err \<Rightarrow> Inl err | Inr vs \<Rightarrow> Inr ((n, v) # vs)))"

text \<open>
  Calling the lambda in the globals \<open>g\<close>. The constructors it calls belong to external
  frameworks; the model handle is represented by the call that builds it.
\<close>

definition call_lambda :: "lambda \<Rightarrow> (env, call) factory" where
  "call_lambda lam g =
     (case lam of Lambda f args kwargs \<Rightarrow>
        (case eval_args g args of
           Inl err \<Rightarrow> (Inl err, g)
         | Inr vs \<Rightarrow>
             (case eval_kwargs g kwargs of
                Inl err \<Rightarrow> (Inl err, g)
              | Inr kvs \<Rightarrow> (Inr (Call f vs kvs), g))))"

definition pytorch_lambda :: "string \<Rightarrow> int \<Rightarrow> lambda" where
  "pytorch_lambda f sz = Lambda ''pytorch_model'' [Lit (PStr f)] [(''image_size'', Lit (PInt sz))]"

definition keras_lambda :: "string \<Rightarrow> string \<Rightarrow> int \<Rightarrow> lambda" where
  "keras_lambda m f sz =
     Lambda ''keras_model'' [Lit (PStr m), Lit (PStr f)] [(''image_size'', Lit (PInt sz))]"

definition slim_lambda :: "string \<Rightarrow> string \<Rightarrow> int \<Rightarrow> lambda" where
  "slim_lambda i p sz =
     Lambda ''TFSlimModel.init'' [Lit (PStr i)]
       [(''preprocessing_type'', Lit (PStr p)), (''image_size'', Lit (PInt sz))]"

definition slim_lambda_offset :: "string \<Rightarrow> string \<Rightarrow> int \<Rightarrow> int \<Rightarrow> lambda" where
  "slim_lambda_offset i p sz off =
     Lambda ''TFSlimModel.init'' [Lit (PStr i)]
       [(''preprocessing_type'', Lit (PStr p)), (''image_size'', Lit (PInt sz)),
        (''labels_offset'', Lit (PInt off))]"

text \<open>The dictionary display of lines 102 to 134, in its order.\<close>

definition key_functions_display :: "(string \<times> lambda) list" where
  "key_functions_display =
    [(''alexnet'', pytorch_lambda ''alexnet'' 224),
     (''squeezenet1_0'', pytorch_lambda ''squeezenet1_0'' 224),
     (''squeezenet1_1'', pytorch_lambda ''squeezenet1_1'' 224),
     (''resnet-18'', pytorch_lambda ''resnet18'' 224),
     (''resnet-34'', pytorch_lambda ''resnet34'' 224),
     (''vgg-16'', keras_lambda ''vgg16'' ''VGG16'' 224),
     (''vgg-19'', keras_lambda ''vgg19'' ''VGG19'' 224),
     (''xception'', keras_lambda ''xception'' ''Xception'' 299),
     (''densenet-121'', keras_lambda ''densenet'' ''DenseNet121'' 224),
     (''densenet-169'', keras_lambda ''densenet'' ''DenseNet169'' 224),
     (''densenet-201'', keras_lambda ''densenet'' ''DenseNet201'' 224),
     (''inception_v1'', slim_lambda ''inception_v1'' ''inception'' 224),
     (''inception_v2'', slim_lambda ''inception_v2'' ''inception'' 224),
     (''inception_v3'', slim_lambda ''inception_v3'' ''inception'' 299),
     (''inception_v4'', slim_lambda ''inception_v4'' ''inception'' 299),
     (''inception_resnet_v2'', slim_lambda ''inception_resnet_v2'' ''inception'' 299),
     (''resnet-50_v1'', slim_lambda_offset ''resnet_v1_50'' ''vgg'' 224 0),
     (''resnet-101_v1'', slim_lambda_offset ''resnet_v1_101'' ''vgg'' 224 0),
     (''resnet-152_v1'', slim_lambda_offset ''resnet_v1_152'' ''vgg'' 224 0),
     (''resnet-50_v2'', slim_lambda ''resnet_v2_50'' ''inception'' 299),
     (''resnet-101_v2'', slim_lambda ''resnet_v2_101'' ''inception'' 299),
     (''resnet-152_v2'', slim_lambda ''resnet_v2_152'' ''inception'' 299),
     (''nasnet_mobile'', slim_lambda ''nasnet_mobile'' ''inception'' 331),
     (''nasnet_large'', slim_lambda ''nasnet_large'' ''inception'' 331),
     (''pnasnet_large'', slim_lambda ''pnasnet_large'' ''inception'' 331)]"

text \<open>The parameter tuples of lines 136 to 147: version, multiplier (hundredths), image size.\<close>

definition mobilenet_tuples :: "(int \<times> nat \<times> int) list" where
  "mobilenet_tuples =
    [(1, 100, 224), (1, 100, 192), (1, 100, 160), (1, 100, 128),
     (1, 75, 224), (1, 75, 192), (1, 75, 160), (1, 75, 128),
     (1, 50, 224), (1, 50, 192), (1, 50, 160), (1, 50, 128),
     (1, 25, 224), (1, 25, 192), (1, 25, 160), (1, 25, 128),
     (2, 140, 224),
     (2, 130, 224),
     (2, 100, 224), (2, 100, 192), (2, 100, 160), (2, 100, 128), (2, 100, 96),
     (2, 75, 224), (2, 75, 192), (2, 75, 160), (2, 75, 128), (2, 75, 96),
     (2, 50, 224), (2, 50, 192), (2, 50, 160), (2, 50, 128), (2, 50, 96),
     (2, 35, 224), (2, 35, 192), (2, 35, 160), (2, 35, 128), (2, 35, 96)]"

text \<open>Line 149: \<^verbatim>\<open>f"mobilenet_v{version}_{multiplier}_{image_size}"\<close>.\<close>

definition mobilenet_identifier :: "int \<Rightarrow> nat \<Rightarrow> int \<Rightarrow> string" where
  "mobilenet_identifier version multiplier image_size =
     ''mobilenet_v'' @ show_int version @ ''_'' @ repr_float multiplier @ ''_'' @ show_int image_size"

text \<open>Line 150: the condition that selects the other net name.\<close>

definition net_name_override :: "int \<Rightarrow> nat \<Rightarrow> bool" where
  "net_name_override version multiplier \<longleftrightarrow>
     (version = 1 \<and> multiplier \<in> set [75, 50, 25]) \<or> (version = 2 \<and> multiplier = 140)"

text \<open>Lines 150 to 153.\<close>

definition mobilenet_net_name :: "int \<Rightarrow> nat \<Rightarrow> string" where
  "mobilenet_net_name version multiplier =
     (if net_name_override version multiplier
      then ''mobilenet_v'' @ show_int version @ ''_'' @ format_03 (float_mul_100 multiplier)
      else ''mobilenet_v'' @ show_int version)"

text \<open>
  Line 154: the lambda stored for every tuple. \<^verbatim>\<open>identifier\<close>, \<^verbatim>\<open>image_size\<close> and
  \<^verbatim>\<open>net_name\<close> are names, not values: the loop runs at module level, so they are
  globals of the module, and the lambda has no parameter that binds them.
\<close>

definition mobilenet_lambda :: lambda where
  "mobilenet_lambda =
     Lambda ''TFSlimModel.init'' [Name ''identifier'']
       [(''preprocessing_type'', Lit (PStr ''inception'')),
        (''image_size'', Name ''image_size''),
        (''net_name'', Name ''net_name'')]"

record module_state =
  globals :: env
  key_functions :: "(string \<times> lambda) list"

text \<open>One iteration of the loop of lines 135 to 155.\<close>

definition expansion_step :: "module_state \<Rightarrow> int \<times> nat \<times> int \<Rightarrow> module_state" where
  "expansion_step st t =
     (case t of (version, multiplier, image_size) \<Rightarrow>
        let identifier = mobilenet_identifier version multiplier image_size;
            net_name = mobilenet_net_name version multiplier
        in \<lparr>globals = (globals st)
               (''version'' \<mapsto> PInt version, ''multiplier'' \<mapsto> PFloat multiplier,
                ''image_size'' \<mapsto> PInt image_size, ''identifier'' \<mapsto> PStr identifier,
                ''net_name'' \<mapsto> PStr net_name),
            key_functions = dict_setitem (key_functions st) identifier mobilenet_lambda\<rparr>)"

definition module_after_display :: module_state where
  "module_after_display =
     \<lparr>globals = Map.empty,
      key_functions = foldl (\<lambda>d (k, f). dict_setitem d k f) [] key_functions_display\<rparr>"

definition module_after_expansion :: module_state where
  "module_after_expansion = foldl expansion_step module_after_display mobilenet_tuples"

text \<open>The entries the loop adds, one per tuple.\<close>

definition mobilenet_entries :: "(string \<times> lambda) list" where
  "mobilenet_entries =
     map (\<lambda>(v, m, i). (mobilenet_identifier v m i, mobilenet_lambda)) mobilenet_tuples"

text \<open>
  Lines 156 to 159. \<^verbatim>\<open>LazyLoad(lambda function=function: function())\<close>: the default
  value binds the entry's own lambda when the wrapper is created, so the wrapper of a
  key calls the lambda stored under that key.
\<close>

fun populate ::
  "(env, call) registry \<Rightarrow> (string \<times> lambda) list \<Rightarrow> env \<Rightarrow>
     (error + unit) \<times> (env, call) registry \<times> env" where
  "populate pool [] g = (Inr (), pool, g)"
| "populate pool ((key, function) # kfs) g =
     (case register pool key (call_lambda function) of
        (Inl e, pool') \<Rightarrow> (Inl e, pool', g)
      | (Inr u, pool') \<Rightarrow> populate pool' kfs g)"

definition base_model_pool :: "(env, call) registry" where
  "base_model_pool =
     fst (snd (populate [] (key_functions module_after_expansion) (globals module_after_expansion)))"

text \<open>
  Realizing the entry of a key once the module has been imported: a get on the pool in
  the globals the module was left with.
\<close>

definition realize :: "string \<Rightarrow> error + call" where
  "realize k = fst (registry_get base_model_pool k (globals module_after_expansion))"

section \<open>The class \<^verbatim>\<open>TFSlimModel\<close>\<close>

subsection \<open>Paths and file names\<close>

text \<open>
  \<^verbatim>\<open>os.path.join(a, *p)\<close> of \<^verbatim>\<open>posixpath\<close>: a component that starts with a slash
  replaces what came before it; otherwise it is appended, after a slash unless the path
  is empty or already ends with one.
\<close>

fun os_path_join :: "string \<Rightarrow> string list \<Rightarrow> string" where
  "os_path_join path [] = path"
| "os_path_join path (b # bs) =
     os_path_join
       (if prefix ''/'' b then b
        else if path = [] \<or> last path = CHR ''/'' then path @ b
        else path @ ''/'' @ b) bs"

text \<open>\<^verbatim>\<open>sep in s\<close> for a non-empty \<open>sep\<close>.\<close>

fun contains :: "string \<Rightarrow> string \<Rightarrow> bool" where
  "contains sep [] = (sep = [])"
| "contains sep (c # cs) = (prefix sep (c # cs) \<or> contains sep cs)"

text \<open>\<^verbatim>\<open>s.split(sep)[0]\<close> for a non-empty \<open>sep\<close>: what is before its first occurrence,
  and all of \<open>s\<close> when it does not occur.\<close>

fun before_first :: "string \<Rightarrow> string \<Rightarrow> string" where
  "before_first sep [] = []"
| "before_first sep (c # cs) = (if prefix sep (c # cs) then [] else c # before_first sep cs)"

text \<open>
  A name matches the pattern \<^verbatim>\<open>*.ckpt*\<close> of \<^verbatim>\<open>glob\<close> when it contains \<^verbatim>\<open>.ckpt\<close>
  and, as the pattern does not begin with a dot, is not a hidden name.
\<close>

definition matches_ckpt :: "string \<Rightarrow> bool" where
  "matches_ckpt name \<longleftrightarrow> contains ''.ckpt'' name \<and> \<not> prefix ''.'' name"

subsection \<open>The world outside the program\<close>

text \<open>
  What \<^verbatim>\<open>_find_model_weights\<close> reads and changes: the environment variables, the home
  expansion of \<^verbatim>\<open>os.path.expanduser\<close> (a function of the user database, left open), the
  directories that exist, the entries of each directory in the order the system lists
  them, the remote storage (the file names under a key, or nothing when fetching that key
  fails), and the calls made to \<^verbatim>\<open>s3.download_folder\<close> so far. \<open>networks\<close> is the table
  of \<^verbatim>\<open>nets_factory\<close>. Directory names are taken to be free of the metacharacters of
  \<^verbatim>\<open>glob\<close>, and \<^verbatim>\<open>os.makedirs\<close> and \<^verbatim>\<open>Saver.restore\<close> to succeed.
\<close>

record world =
  environ :: "string \<rightharpoonup> string"
  expanduser :: "string \<Rightarrow> string"
  isdir :: "string \<Rightarrow> bool"
  listing :: "string \<Rightarrow> string list"
  remote :: "string \<rightharpoonup> string list"
  downloads :: "(string \<times> string) list"
  networks :: "string \<Rightarrow> bool"

definition getenv :: "world \<Rightarrow> string \<Rightarrow> string \<Rightarrow> string" where
  "getenv w name dflt = (case environ w name of None \<Rightarrow> dflt | Some v \<Rightarrow> v)"

definition makedirs :: "string \<Rightarrow> world \<Rightarrow> world" where
  "makedirs path w = w\<lparr>isdir := (isdir w)(path := True), listing := (listing w)(path := [])\<rparr>"

text \<open>
  Modelled from the spec: the module \<^verbatim>\<open>candidate_models.s3\<close> is not among the sources.
  Section 6: a remote object-storage fetch, keyed by model identifier, downloading into a
  local directory; section 7: a fetch failure is propagated from the storage collaborator.
\<close>

definition download_folder :: "string \<Rightarrow> string \<Rightarrow> world \<Rightarrow> (error + unit) \<times> world" where
  "download_folder key dest w =
     (let w' = w\<lparr>downloads := downloads w @ [(key, dest)]\<rparr>
      in case remote w key of
           None \<Rightarrow> (Inl (Storage_Error key), w')
         | Some names \<Rightarrow>
             (Inr (), w'\<lparr>listing := (listing w)(dest := listing w dest @
                                        filter (\<lambda>n. n \<notin> set (listing w dest)) names)\<rparr>))"

text \<open>\<^verbatim>\<open>glob.glob(os.path.join(model_path, '*.ckpt*'))\<close>.\<close>

definition glob_ckpt :: "world \<Rightarrow> string \<Rightarrow> string list" where
  "glob_ckpt w model_path =
     (if isdir w model_path
      then map (\<lambda>n. os_path_join model_path [n]) (filter matches_ckpt (listing w model_path))
      else [])"

subsection \<open>Lines 80 to 93\<close>

definition framework_home :: "world \<Rightarrow> string" where
  "framework_home w = expanduser w (getenv w ''CM_HOME'' ''~/.candidate_models'')"

definition weights_path :: "world \<Rightarrow> string" where
  "weights_path w =
     getenv w ''CM_TSLIM_WEIGHTS_DIR'' (os_path_join (framework_home w) [''model-weights'', ''slim''])"

definition model_path :: "world \<Rightarrow> string \<Rightarrow> string" where
  "model_path w model_name = os_path_join (weights_path w) [model_name]"

definition find_model_weights :: "string \<Rightarrow> world \<Rightarrow> (error + string) \<times> world" where
  "find_model_weights model_name w =
     (let mp = model_path w model_name;
          fetched = (if \<not> isdir w mp
                     then download_folder (''slim/'' @ model_name) mp (makedirs mp w)
                     else (Inr (), w))
      in case fetched of
           (Inl e, w') \<Rightarrow> (Inl e, w')
         | (Inr u, w') \<Rightarrow>
             (let fnames = glob_ckpt w' mp
              in if length fnames > 0
                 then (Inr (before_first ''.ckpt'' (hd fnames) @ ''.ckpt''), w')
                 else (Inl Assertion_Error, w')))"

subsection \<open>Lines 32 to 78\<close>

text \<open>
  The TensorFlow objects are opaque; each is represented by what it was built from. The
  imports at the head of each method and \<^verbatim>\<open>tf.placeholder\<close> are taken to succeed,
  and assertions to be enabled.
\<close>

datatype preprocessing = Vgg_Preprocessing int | Inception_Preprocessing int

record restored =
  moving_average :: bool
  restore_path :: string

record slim_wrapper =
  wrapper_identifier :: string
  network_name :: string
  num_classes :: int
  preprocess :: preprocessing
  weights :: restored
  batch_size :: int
  labels_offset :: int

text \<open>
  Lines 50 to 64. The dictionary \<^verbatim>\<open>preprocessing_types\<close> has the two keys
  \<^verbatim>\<open>'vgg'\<close> and \<^verbatim>\<open>'inception'\<close>; the assertion is the membership test.
\<close>

definition init_preprocessing :: "string \<Rightarrow> int \<Rightarrow> error + preprocessing" where
  "init_preprocessing preprocessing_type image_size =
     (let preprocessing_types =
            [(''vgg'', Vgg_Preprocessing image_size),
             (''inception'', Inception_Preprocessing image_size)]
      in if preprocessing_type \<in> set (map fst preprocessing_types)
         then (case map_of preprocessing_types preprocessing_type of
                 Some p \<Rightarrow> Inr p
               | None \<Rightarrow> Inl (Not_Found preprocessing_type))
         else Inl Assertion_Error)"

definition restore_imagenet_weights :: "string \<Rightarrow> world \<Rightarrow> (error + restored) \<times> world" where
  "restore_imagenet_weights name w =
     (let ema = prefix ''mobilenet'' name
      in case find_model_weights name w of
           (Inl e, w') \<Rightarrow> (Inl e, w')
         | (Inr path, w') \<Rightarrow> (Inr \<lparr>moving_average = ema, restore_path = path\<rparr>, w'))"

text \<open>
  Lines 33 to 47. \<^verbatim>\<open>net_name or identifier\<close> takes the identifier when the net name
  is \<^verbatim>\<open>None\<close> or the empty string. \<^verbatim>\<open>get_network_fn\<close> raises \<^verbatim>\<open>ValueError\<close> for a
  name that is not in its table.
\<close>

definition init ::
  "string \<Rightarrow> string \<Rightarrow> int \<Rightarrow> string option \<Rightarrow> int \<Rightarrow> int \<Rightarrow> world \<Rightarrow>
     (error + slim_wrapper) \<times> world" where
  "init identifier preprocessing_type image_size net_name labels_off batch w =
     (case init_preprocessing preprocessing_type image_size of
        Inl e \<Rightarrow> (Inl e, w)
      | Inr pre \<Rightarrow>
          (let net_name' = (case net_name of
                              None \<Rightarrow> identifier
                            | Some n \<Rightarrow> if n = [] then identifier else n)
           in if \<not> networks w net_name' then (Inl (Value_Error net_name'), w)
              else (case restore_imagenet_weights identifier w of
                      (Inl e, w') \<Rightarrow> (Inl e, w')
                    | (Inr r, w') \<Rightarrow>
                        (Inr \<lparr>wrapper_identifier = identifier, network_name = net_name',
                              num_classes = labels_off + 1000, preprocess = pre, weights = r,
                              batch_size = batch, labels_offset = labels_off\<rparr>, w'))))"

subsection \<open>A world to run the functions in\<close>

text \<open>
  The home override is set; the cache holds a populated directory for
  \<^verbatim>\<open>inception_v1\<close> and an empty one for \<^verbatim>\<open>vgg_16\<close>; the remote storage has a
  checkpoint for \<^verbatim>\<open>resnet_v1_50\<close>, for which there is no directory yet.
\<close>

definition example_world :: world where
  "example_world =
     \<lparr>environ = [''CM_HOME'' \<mapsto> ''/data/cm''],
      expanduser = (\<lambda>p. p),
      isdir = (\<lambda>p. p \<in> set [''/data/cm/model-weights/slim/inception_v1'',
                              ''/data/cm/model-weights/slim/vgg_16'']),
      listing = (\<lambda>p. if p = ''/data/cm/model-weights/slim/inception_v1''
                     then [''checkpoint'', ''inception_v1.ckpt.index'', ''inception_v1.ckpt.data'']
                     else []),
      remote = [''slim/resnet_v1_50'' \<mapsto> [''resnet_v1_50.ckpt'']],
      downloads = [],
      networks = (\<lambda>n. n \<in> set [''inception_v1'', ''resnet_v1_50'', ''vgg_16''])\<rparr>"

section \<open>The module \<^verbatim>\<open>model_commitments\<close>\<close>

text \<open>
  Lines 12 to 16: each loop stores the items a pool yields, in order, into
  \<^verbatim>\<open>brain_translated_pool\<close>, a \<^verbatim>\<open>UniqueKeyDict\<close>. The pools themselves
  (\<^verbatim>\<open>MLBrainPool\<close>, \<^verbatim>\<open>cornet_brain_pool\<close>) are external; each is given by the items
  it yields. An exception leaves the loop and the module.
\<close>

fun store_items ::
  "(string \<times> 'v) list \<Rightarrow> (string \<times> 'v) list \<Rightarrow> (error + unit) \<times> (string \<times> 'v) list" where
  "store_items d [] = (Inr (), d)"
| "store_items d ((identifier, model) # rest) =
     (case ukd_setitem d identifier model of
        (Inl e, d') \<Rightarrow> (Inl e, d')
      | (Inr u, d') \<Rightarrow> store_items d' rest)"

fun merge_pools ::
  "(string \<times> 'v) list \<Rightarrow> (string \<times> 'v) list list \<Rightarrow> (error + unit) \<times> (string \<times> 'v) list" where
  "merge_pools d [] = (Inr (), d)"
| "merge_pools d (pool # pools) =
     (case store_items d pool of
        (Inl e, d') \<Rightarrow> (Inl e, d')
      | (Inr u, d') \<Rightarrow> merge_pools d' pools)"

definition brain_translated_pool ::
  "(string \<times> 'v) list \<Rightarrow> (string \<times> 'v) list \<Rightarrow> (error + unit) \<times> (string \<times> 'v) list" where
  "brain_translated_pool ml_brain_pool cornet_brain_pool =
     merge_pools [] [ml_brain_pool, cornet_brain_pool]"

section \<open>The expansion of the descriptor list\<close>

lemmas fmt = show_int_def show_nat.simps digit_char_def repr_float_def format_03_def float_mul_100_def

lemma mobilenet_identifiers:
  "map (\<lambda>(v, m, i). mobilenet_identifier v m i) mobilenet_tuples =
    [''mobilenet_v1_1.0_224'', ''mobilenet_v1_1.0_192'', ''mobilenet_v1_1.0_160'',
     ''mobilenet_v1_1.0_128'', ''mobilenet_v1_0.75_224'', ''mobilenet_v1_0.75_192'',
     ''mobilenet_v1_0.75_160'', ''mobilenet_v1_0.75_128'', ''mobilenet_v1_0.5_224'',
     ''mobilenet_v1_0.5_192'', ''mobilenet_v1_0.5_160'', ''mobilenet_v1_0.5_128'',
     ''mobilenet_v1_0.25_224'', ''mobilenet_v1_0.25_192'', ''mobilenet_v1_0.25_160'',
     ''mobilenet_v1_0.25_128'', ''mobilenet_v2_1.4_224'', ''mobilenet_v2_1.3_224'',
     ''mobilenet_v2_1.0_224'', ''mobilenet_v2_1.0_192'', ''mobilenet_v2_1.0_160'',
     ''mobilenet_v2_1.0_128'', ''mobilenet_v2_1.0_96'', ''mobilenet_v2_0.75_224'',
     ''mobilenet_v2_0.75_192'', ''mobilenet_v2_0.75_160'', ''mobilenet_v2_0.75_128'',
     ''mobilenet_v2_0.75_96'', ''mobilenet_v2_0.5_224'', ''mobilenet_v2_0.5_192'',
     ''mobilenet_v2_0.5_160'', ''mobilenet_v2_0.5_128'', ''mobilenet_v2_0.5_96'',
     ''mobilenet_v2_0.35_224'', ''mobilenet_v2_0.35_192'', ''mobilenet_v2_0.35_160'',
     ''mobilenet_v2_0.35_128'', ''mobilenet_v2_0.35_96'']"
  by (simp add: mobilenet_tuples_def mobilenet_identifier_def fmt)

lemma display_keys:
  "map fst key_functions_display =
    [''alexnet'', ''squeezenet1_0'', ''squeezenet1_1'', ''resnet-18'', ''resnet-34'',
     ''vgg-16'', ''vgg-19'', ''xception'', ''densenet-121'', ''densenet-169'',
     ''densenet-201'', ''inception_v1'', ''inception_v2'', ''inception_v3'',
     ''inception_v4'', ''inception_resnet_v2'', ''resnet-50_v1'', ''resnet-101_v1'',
     ''resnet-152_v1'', ''resnet-50_v2'', ''resnet-101_v2'', ''resnet-152_v2'',
     ''nasnet_mobile'', ''nasnet_large'', ''pnasnet_large'']"
  by (simp add: key_functions_display_def)

lemma all_keys_distinct:
  "distinct (map fst key_functions_display @
             map (\<lambda>(v, m, i). mobilenet_identifier v m i) mobilenet_tuples)"
  unfolding mobilenet_identifiers display_keys by simp

lemma dict_setitem_fresh:
  "k \<notin> set (map fst d) \<Longrightarrow> dict_setitem d k v = d @ [(k, v)]"
  by (induction d) auto

lemma foldl_dict_setitem_fresh:
  "distinct (map fst d @ map fst kvs) \<Longrightarrow>
     foldl (\<lambda>d (k, f). dict_setitem d k f) d kvs = d @ kvs"
proof (induction kvs arbitrary: d)
  case Nil
  then show ?case by simp
next
  case (Cons kv kvs)
  obtain k v where kv: "kv = (k, v)" by (cases kv)
  from Cons.prems kv have fresh: "k \<notin> set (map fst d)" by auto
  from Cons.prems kv have "distinct (map fst (d @ [(k, v)]) @ map fst kvs)" by auto
  from Cons.IH [OF this] show ?case
    using fresh kv by (simp add: dict_setitem_fresh)
qed

lemma key_functions_foldl_expansion:
  "key_functions (foldl expansion_step st ts) =
     foldl (\<lambda>d (k, f). dict_setitem d k f) (key_functions st)
       (map (\<lambda>(v, m, i). (mobilenet_identifier v m i, mobilenet_lambda)) ts)"
  by (induction ts arbitrary: st) (auto simp: expansion_step_def Let_def)

lemma fst_mobilenet_entries:
  "map fst mobilenet_entries = map (\<lambda>(v, m, i). mobilenet_identifier v m i) mobilenet_tuples"
  by (simp add: mobilenet_entries_def case_prod_unfold comp_def)

lemma key_functions_after_display:
  "key_functions module_after_display = key_functions_display"
proof -
  have "distinct (map fst key_functions_display)"
    using all_keys_distinct by simp
  then have "foldl (\<lambda>d (k, f). dict_setitem d k f) [] key_functions_display
               = [] @ key_functions_display"
    by (intro foldl_dict_setitem_fresh) simp
  then show ?thesis by (simp add: module_after_display_def)
qed

lemma key_functions_after_expansion:
  "key_functions module_after_expansion = key_functions_display @ mobilenet_entries"
  unfolding module_after_expansion_def key_functions_foldl_expansion
    key_functions_after_display mobilenet_entries_def [symmetric]
  by (rule foldl_dict_setitem_fresh) (simp only: fst_mobilenet_entries all_keys_distinct)

lemma mobilenet_tuples_last:
  "mobilenet_tuples = butlast mobilenet_tuples @ [(2, 35, 96)]"
  by (simp add: mobilenet_tuples_def)

lemma module_after_expansion_last:
  "module_after_expansion =
     expansion_step (foldl expansion_step module_after_display (butlast mobilenet_tuples)) (2, 35, 96)"
proof -
  have "module_after_expansion =
          foldl expansion_step module_after_display (butlast mobilenet_tuples @ [(2, 35, 96)])"
    unfolding module_after_expansion_def
    by (rule arg_cong [where f = "foldl expansion_step module_after_display", OF mobilenet_tuples_last])
  then show ?thesis by (simp only: foldl_append foldl.simps)
qed

lemma globals_expansion_step:
  "globals (expansion_step st (v, m, i)) ''identifier'' = Some (PStr (mobilenet_identifier v m i))"
  "globals (expansion_step st (v, m, i)) ''image_size'' = Some (PInt i)"
  "globals (expansion_step st (v, m, i)) ''net_name'' = Some (PStr (mobilenet_net_name v m))"
  by (simp_all add: expansion_step_def Let_def)

lemma last_names:
  "mobilenet_identifier 2 35 96 = ''mobilenet_v2_0.35_96''"
  "mobilenet_net_name 2 35 = ''mobilenet_v2''"
  by (simp_all add: mobilenet_identifier_def mobilenet_net_name_def net_name_override_def fmt)

lemma final_globals:
  "globals module_after_expansion ''identifier'' = Some (PStr ''mobilenet_v2_0.35_96'')"
  "globals module_after_expansion ''image_size'' = Some (PInt 96)"
  "globals module_after_expansion ''net_name'' = Some (PStr ''mobilenet_v2'')"
  unfolding module_after_expansion_last globals_expansion_step last_names by (rule refl)+

lemma populate_fresh:
  "distinct (map fst pool @ map fst kfs) \<Longrightarrow>
     populate pool kfs g =
       (Inr (), pool @ map (\<lambda>(k, f). (k, LazyLoad (call_lambda f))) kfs, g)"
proof (induction kfs arbitrary: pool)
  case Nil
  then show ?case by simp
next
  case (Cons kf kfs)
  obtain k f where kf: "kf = (k, f)" by (cases kf)
  from Cons.prems kf have fresh: "k \<notin> set (map fst pool)" by auto
  from Cons.prems kf
  have "distinct (map fst (pool @ [(k, LazyLoad (call_lambda f))]) @ map fst kfs)" by auto
  from Cons.IH [OF this] show ?case
    using fresh kf by (simp add: register_def ukd_setitem_def dict_setitem_fresh)
qed

lemma base_model_pool_entries:
  "base_model_pool =
     map (\<lambda>(k, f). (k, LazyLoad (call_lambda f))) (key_functions_display @ mobilenet_entries)"
proof -
  have "distinct (map fst ([] :: (env, call) registry) @
                  map fst (key_functions_display @ mobilenet_entries))"
    using all_keys_distinct by (simp add: fst_mobilenet_entries)
  from populate_fresh [OF this] show ?thesis
    by (simp add: base_model_pool_def key_functions_after_expansion)
qed

lemma map_of_map_values:
  "map_of (map (\<lambda>(k, f). (k, F f)) xs) k = map_option F (map_of xs k)"
  by (induction xs) auto

lemma map_of_constant_entries:
  "k \<in> set (map g ts) \<Longrightarrow> map_of (map (\<lambda>t. (g t, c)) ts) k = Some c"
  by (induction ts) auto

lemma map_of_mobilenet_entries:
  assumes "k \<in> set (map fst mobilenet_entries)"
  shows "map_of (key_functions_display @ mobilenet_entries) k = Some mobilenet_lambda"
proof -
  from assms have k: "k \<in> set (map (\<lambda>(v, m, i). mobilenet_identifier v m i) mobilenet_tuples)"
    by (simp only: fst_mobilenet_entries)
  then have "map_of (map (\<lambda>t. ((\<lambda>(v, m, i). mobilenet_identifier v m i) t, mobilenet_lambda))
               mobilenet_tuples) k = Some mobilenet_lambda"
    by (rule map_of_constant_entries)
  then have m: "map_of mobilenet_entries k = Some mobilenet_lambda"
    by (simp add: mobilenet_entries_def case_prod_unfold)
  from all_keys_distinct k have "k \<notin> set (map fst key_functions_display)"
    unfolding distinct_append by blast
  then have "map_of key_functions_display k = None"
    by (simp add: map_of_eq_None_iff)
  with m show ?thesis by (simp add: map_add_def)
qed

lemma call_mobilenet_lambda:
  "call_lambda mobilenet_lambda (globals module_after_expansion) =
     (Inr (Call ''TFSlimModel.init'' [PStr ''mobilenet_v2_0.35_96'']
             [(''preprocessing_type'', PStr ''inception''), (''image_size'', PInt 96),
              (''net_name'', PStr ''mobilenet_v2'')]),
      globals module_after_expansion)"
  by (simp add: call_lambda_def mobilenet_lambda_def eval_expr_def final_globals)

lemma realize_mobilenet_entry:
  assumes "k \<in> set (map fst mobilenet_entries)"
  shows "realize k =
     Inr (Call ''TFSlimModel.init'' [PStr ''mobilenet_v2_0.35_96'']
            [(''preprocessing_type'', PStr ''inception''), (''image_size'', PInt 96),
             (''net_name'', PStr ''mobilenet_v2'')])"
proof -
  have "map_of base_model_pool k = Some (LazyLoad (call_lambda mobilenet_lambda))"
    unfolding base_model_pool_entries map_of_map_values map_of_mobilenet_entries [OF assms]
    by simp
  then show ?thesis
    by (simp add: realize_def registry_get_def LazyLoad_def call_mobilenet_lambda)
qed

text \<open>
  Claim C1 (closure isolation). The claim: each of the factories generated for the
  mobilenet tuples, when realized, constructs the model with its own tuple's identifier,
  net name and image size, and two factories agree only if their tuples do. The module
  does otherwise: the lambda of line 154 reads the globals \<^verbatim>\<open>identifier\<close>,
  \<^verbatim>\<open>image_size\<close> and \<^verbatim>\<open>net_name\<close> when it is called, and after the loop these hold
  the values of the last tuple. Realizing the entry of the first tuple calls
  \<^verbatim>\<open>TFSlimModel.init\<close> with the identifier, image size and net name of the last tuple,
  and the entries of two different tuples are realized by the same call.
\<close>

theorem mobilenet_factories_share_last_tuple:
  "realize ''mobilenet_v1_1.0_224'' =
     Inr (Call ''TFSlimModel.init'' [PStr ''mobilenet_v2_0.35_96'']
            [(''preprocessing_type'', PStr ''inception''), (''image_size'', PInt 96),
             (''net_name'', PStr ''mobilenet_v2'')])
   \<and> realize ''mobilenet_v1_0.75_192'' = realize ''mobilenet_v1_1.0_224''"
proof -
  have a: "''mobilenet_v1_1.0_224'' \<in> set (map fst mobilenet_entries)"
    unfolding fst_mobilenet_entries mobilenet_identifiers by simp
  have b: "''mobilenet_v1_0.75_192'' \<in> set (map fst mobilenet_entries)"
    unfolding fst_mobilenet_entries mobilenet_identifiers by simp
  show ?thesis
    by (simp only: realize_mobilenet_entry [OF a] realize_mobilenet_entry [OF b] simp_thms)
qed

text \<open>
  Claim C7 (descriptor expansion), as stated, speaks of 37 mobilenet tuples and 24 keys
  in the dictionary display. The list has 38 tuples and the display 25 keys.
\<close>

theorem expansion_counts_counterexample:
  "\<not> (length mobilenet_tuples = 37 \<and> length key_functions_display = 24)"
  by (simp add: mobilenet_tuples_def)

text \<open>
  Claim C7 (descriptor expansion), amended. The list has 38 tuples and the display 25
  keys. The identifiers of the tuples are pairwise different and none is a key of the
  display, so after the loop the dictionary holds the keys of the display followed by one
  entry per tuple, in order: for every tuple of the list the identifier is
  \<^verbatim>\<open>mobilenet_v{version}_{multiplier}_{image_size}\<close> and the dictionary maps it to
  the one lambda stored for it at line 154. Nothing is stated here about the net name a
  factory is built with.
\<close>

theorem expansion_identifiers_unique:
  "length mobilenet_tuples = 38
   \<and> length key_functions_display = 25
   \<and> distinct (map (\<lambda>(v, m, i). mobilenet_identifier v m i) mobilenet_tuples)
   \<and> set (map (\<lambda>(v, m, i). mobilenet_identifier v m i) mobilenet_tuples)
        \<inter> set (map fst key_functions_display) = {}
   \<and> map fst (key_functions module_after_expansion) =
        map fst key_functions_display @
        map (\<lambda>(v, m, i). mobilenet_identifier v m i) mobilenet_tuples
   \<and> (\<forall>(v, m, i) \<in> set mobilenet_tuples.
        mobilenet_identifier v m i =
          ''mobilenet_v'' @ show_int v @ ''_'' @ repr_float m @ ''_'' @ show_int i
        \<and> map_of (key_functions module_after_expansion) (mobilenet_identifier v m i)
            = Some mobilenet_lambda)"
proof -
  have n1: "length mobilenet_tuples = 38"
    by (simp add: mobilenet_tuples_def)
  have n2: "length key_functions_display = 25"
    by (simp add: key_functions_display_def)
  have d: "distinct (map (\<lambda>(v, m, i). mobilenet_identifier v m i) mobilenet_tuples)"
    using all_keys_distinct by simp
  have i: "set (map (\<lambda>(v, m, i). mobilenet_identifier v m i) mobilenet_tuples)
        \<inter> set (map fst key_functions_display) = {}"
    using all_keys_distinct unfolding distinct_append by blast
  have k: "map fst (key_functions module_after_expansion) =
        map fst key_functions_display @
        map (\<lambda>(v, m, i). mobilenet_identifier v m i) mobilenet_tuples"
    by (simp only: key_functions_after_expansion map_append fst_mobilenet_entries)
  have e: "map_of (key_functions module_after_expansion) (mobilenet_identifier v m i)
             = Some mobilenet_lambda" if "(v, m, i) \<in> set mobilenet_tuples" for v m i
  proof -
    from that have "mobilenet_identifier v m i \<in> set (map fst mobilenet_entries)"
      unfolding fst_mobilenet_entries by force
    then show ?thesis
      unfolding key_functions_after_expansion by (rule map_of_mobilenet_entries)
  qed
  from n1 n2 d i k e show ?thesis
    by (auto simp: mobilenet_identifier_def)
qed

text \<open>
  The statement at the tuples \<open>(1, 0.75, 224)\<close> and \<open>(2, 1.3, 224)\<close>: each has its
  own identifier, under which the dictionary holds the lambda.
\<close>

theorem expansion_identifiers_unique_witness:
  "(1, 75, 224) \<in> set mobilenet_tuples
   \<and> mobilenet_identifier 1 75 224 = ''mobilenet_v1_0.75_224''
   \<and> map_of (key_functions module_after_expansion) ''mobilenet_v1_0.75_224'' = Some mobilenet_lambda
   \<and> (2, 130, 224) \<in> set mobilenet_tuples
   \<and> mobilenet_identifier 2 130 224 = ''mobilenet_v2_1.3_224''
   \<and> map_of (key_functions module_after_expansion) ''mobilenet_v2_1.3_224'' = Some mobilenet_lambda"
proof -
  have m1: "(1, 75, 224) \<in> set mobilenet_tuples" and m2: "(2, 130, 224) \<in> set mobilenet_tuples"
    by (simp_all add: mobilenet_tuples_def)
  note all = expansion_identifiers_unique [THEN conjunct2, THEN conjunct2, THEN conjunct2,
      THEN conjunct2, THEN conjunct2]
  have id1: "mobilenet_identifier 1 75 224 = ''mobilenet_v1_0.75_224''"
    by (simp add: mobilenet_identifier_def fmt)
  have id2: "mobilenet_identifier 2 130 224 = ''mobilenet_v2_1.3_224''"
    by (simp add: mobilenet_identifier_def fmt)
  note t1 = bspec [OF all m1, unfolded prod.case, THEN conjunct2, unfolded id1]
  note t2 = bspec [OF all m2, unfolded prod.case, THEN conjunct2, unfolded id2]
  from m1 id1 t1 m2 id2 t2 show ?thesis by (intro conjI)
qed

text \<open>
  What lines 150 to 153 compute. The net name is the default unless the version is 1 and
  the multiplier one of 0.75, 0.5, 0.25, or the version is 2 and the multiplier 1.4. For
  these the product \<^verbatim>\<open>multiplier * 100\<close> is a float, and the format specification
  \<^verbatim>\<open>03\<close> renders it with its fraction: the zero padding to three characters never
  acts, and the names are not the three-digit ones the specification aims at. By
  \<open>realize_mobilenet_entry\<close>, no factory is built with any of them either.
\<close>

lemma override_net_names_rendered:
  "mobilenet_net_name 1 75 = ''mobilenet_v1_75.0''"
  "mobilenet_net_name 1 50 = ''mobilenet_v1_50.0''"
  "mobilenet_net_name 1 25 = ''mobilenet_v1_25.0''"
  "mobilenet_net_name 2 140 = ''mobilenet_v2_140.0''"
  "mobilenet_net_name 1 100 = ''mobilenet_v1''"
  "mobilenet_net_name 2 130 = ''mobilenet_v2''"
  by (simp_all add: mobilenet_net_name_def net_name_override_def fmt)

section \<open>Dictionaries and the lazy registry\<close>

lemma map_of_dict_setitem: "map_of (dict_setitem d k v) = (map_of d)(k \<mapsto> v)"
  by (induction d) (auto simp: fun_eq_iff)

lemma keys_dict_setitem_present:
  "k \<in> set (map fst d) \<Longrightarrow> map fst (dict_setitem d k v) = map fst d"
proof (induction d)
  case Nil
  then show ?case by simp
next
  case (Cons kv d)
  obtain k' v' where kv: "kv = (k', v')" by (cases kv)
  show ?case
  proof (cases "k' = k")
    case True
    with kv show ?thesis by simp
  next
    case False
    with Cons.prems kv have "k \<in> set (map fst d)" by auto
    from Cons.IH [OF this] False kv show ?thesis by simp
  qed
qed

lemma keys_dict_setitem: "fst ` set (dict_setitem d k v) = insert k (fst ` set d)"
proof -
  have "dom (map_of (dict_setitem d k v)) = dom ((map_of d)(k \<mapsto> v))"
    by (simp only: map_of_dict_setitem)
  then show ?thesis by (simp add: dom_map_of_conv_image_fst)
qed

text \<open>
  Claim C4 (duplicate-key rejection). For every Unique-Key Dictionary and every key that
  is present, set fails with a Duplicate-Key error and leaves the dictionary as it was,
  so the key keeps the value it had. For a key that is not present set succeeds and the
  dictionary is the ordinary mapping update; setting that key once more is rejected.
\<close>

theorem ukd_setitem_rejects_duplicates:
  "(k \<in> set (map fst d) \<longrightarrow>
      ukd_setitem d k v = (Inl (Duplicate_Key k), d)
      \<and> ukd_getitem (snd (ukd_setitem d k v)) k = ukd_getitem d k
      \<and> (\<exists>v0. ukd_getitem d k = Inr v0))
   \<and> (k \<notin> set (map fst d) \<longrightarrow>
      fst (ukd_setitem d k v) = Inr ()
      \<and> map_of (snd (ukd_setitem d k v)) = (map_of d)(k \<mapsto> v)
      \<and> ukd_getitem (snd (ukd_setitem d k v)) k = Inr v
      \<and> ukd_setitem (snd (ukd_setitem d k v)) k v' =
           (Inl (Duplicate_Key k), snd (ukd_setitem d k v)))"
proof (intro conjI impI)
  assume "k \<in> set (map fst d)"
  then show "\<exists>v0. ukd_getitem d k = Inr v0"
    by (cases "map_of d k") (auto simp: ukd_getitem_def map_of_eq_None_iff)
qed (simp_all add: ukd_setitem_def ukd_getitem_def map_of_dict_setitem keys_dict_setitem)

text \<open>The dictionary with \<open>x\<close> set to 1: setting \<open>x\<close> again fails, setting \<open>y\<close> succeeds.\<close>

theorem ukd_setitem_rejects_duplicates_witness:
  "''x'' \<in> set (map fst [(''x'', 1::int)])
   \<and> ukd_setitem [(''x'', 1::int)] ''x'' 2 = (Inl (Duplicate_Key ''x''), [(''x'', 1)])
   \<and> ukd_getitem (snd (ukd_setitem [(''x'', 1::int)] ''x'' 2)) ''x'' = Inr 1
   \<and> ''y'' \<notin> set (map fst [(''x'', 1::int)])
   \<and> ukd_setitem [(''x'', 1::int)] ''y'' 3 = (Inr (), [(''x'', 1), (''y'', 3)])"
proof -
  have p: "''x'' \<in> set (map fst [(''x'', 1::int)])" by simp
  have q: "''y'' \<notin> set (map fst [(''x'', 1::int)])" by simp
  note t = ukd_setitem_rejects_duplicates [of "''x''" "[(''x'', 1::int)]" 2]
  from t [THEN conjunct1, rule_format, OF p] p q show ?thesis
    by (simp add: ukd_setitem_def ukd_getitem_def)
qed

lemma realized_cached: "realized r k \<longleftrightarrow> cached r k \<noteq> None"
  by (simp add: realized_def cached_def split: option.splits)

lemma cached_dict_setitem:
  "cached (dict_setitem r k e) k' = (if k' = k then content e else cached r k')"
  by (simp add: cached_def map_of_dict_setitem)

lemma registry_get_cached:
  "cached r k = Some v \<Longrightarrow> registry_get r k w = (Inr v, r, w)"
  by (auto simp: cached_def registry_get_def split: option.splits)

lemma registry_get_unrealized:
  "map_of r k = Some e \<Longrightarrow> content e = None \<Longrightarrow>
     registry_get r k w =
       (case load_fnc e w of
          (Inl err, w') \<Rightarrow> (Inl err, r, w')
        | (Inr v, w') \<Rightarrow> (Inr v, dict_setitem r k (e\<lparr>content := Some v\<rparr>), w'))"
  by (simp add: registry_get_def)

lemma registry_get_Inr:
  assumes "registry_get r k w = (Inr v, r', w')"
  shows "cached r' k = Some v"
    and "map fst r' = map fst r"
    and "cached r k0 = Some v0 \<Longrightarrow> cached r' k0 = Some v0"
proof -
  from assms obtain e where e: "map_of r k = Some e"
    by (auto simp: registry_get_def split: option.splits)
  then have key: "k \<in> set (map fst r)"
    by (auto dest: map_of_SomeD intro: rev_image_eqI)
  show "cached r' k = Some v" and "map fst r' = map fst r"
    and "cached r k0 = Some v0 \<Longrightarrow> cached r' k0 = Some v0"
  proof (atomize (full), cases "content e")
    case None
    with assms e obtain w0 where "load_fnc e w = (Inr v, w0)"
      and r': "r' = dict_setitem r k (e\<lparr>content := Some v\<rparr>)"
      by (auto simp: registry_get_def split: sum.splits prod.splits)
    from e None have ck: "cached r k = None" by (simp add: cached_def)
    have 1: "cached r' k = Some v" by (simp add: r' cached_dict_setitem)
    from key have 2: "map fst r' = map fst r" by (simp only: r' keys_dict_setitem_present)
    have 3: "cached r k0 = Some v0 \<longrightarrow> cached r' k0 = Some v0"
      using ck by (cases "k0 = k") (simp_all add: r' cached_dict_setitem)
    from 1 2 3 show "cached r' k = Some v \<and> map fst r' = map fst r
        \<and> (cached r k0 = Some v0 \<longrightarrow> cached r' k0 = Some v0)"
      by (intro conjI)
  next
    case (Some u)
    with assms e show "cached r' k = Some v \<and> map fst r' = map fst r
        \<and> (cached r k0 = Some v0 \<longrightarrow> cached r' k0 = Some v0)"
      by (auto simp: registry_get_def cached_def)
  qed
qed

lemma registry_get_keeps_cached:
  assumes "cached r k = Some v"
  shows "cached (fst (snd (registry_get r k' w))) k = Some v"
proof (cases "registry_get r k' w")
  case (fields res r' w')
  show ?thesis
  proof (cases res)
    case (Inl err)
    with fields have "r' = r"
      by (auto simp: registry_get_def split: option.splits sum.splits prod.splits)
    with fields assms show ?thesis by simp
  next
    case (Inr u)
    with fields have "registry_get r k' w = (Inr u, r', w')" by simp
    from registry_get_Inr(3) [OF this assms] fields show ?thesis by simp
  qed
qed

text \<open>
  Claim C2 (idempotent lazy realization). For a registered key whose entry is unrealized
  and whose factory returns \<open>v\<close>, the first get runs the factory once (the world after
  the get is the world after that one invocation), caches \<open>v\<close> and returns it. From
  then on, in whatever state the registry is in which \<open>v\<close> is cached for the key, a get
  of the key returns \<open>v\<close> and leaves registry and world as they were, so the factory
  is not invoked; and a get of any key keeps \<open>v\<close> cached.
\<close>

theorem registry_get_idempotent:
  assumes "map_of r k = Some e" and "content e = None" and "load_fnc e w = (Inr v, w')"
  shows "registry_get r k w = (Inr v, dict_setitem r k (e\<lparr>content := Some v\<rparr>), w')
    \<and> cached (dict_setitem r k (e\<lparr>content := Some v\<rparr>)) k = Some v
    \<and> (\<forall>r2 w2. cached r2 k = Some v \<longrightarrow>
          registry_get r2 k w2 = (Inr v, r2, w2)
          \<and> (\<forall>k' w3. cached (fst (snd (registry_get r2 k' w3))) k = Some v))"
  using assms
  by (simp add: registry_get_unrealized registry_get_cached cached_dict_setitem
        registry_get_keeps_cached)

text \<open>
  With the counting factory: the first get returns handle 0 and records one invocation;
  the second get returns handle 0 again and the count stays at one.
\<close>

theorem registry_get_idempotent_witness:
  "registry_get [(''k'', LazyLoad counting_factory)] ''k'' 0 =
     (Inr 0, [(''k'', \<lparr>load_fnc = counting_factory, content = Some 0\<rparr>)], 1)
   \<and> registry_get [(''k'', \<lparr>load_fnc = counting_factory, content = Some 0\<rparr>)] ''k'' 1 =
     (Inr 0, [(''k'', \<lparr>load_fnc = counting_factory, content = Some 0\<rparr>)], 1)"
proof -
  have a: "map_of [(''k'', LazyLoad counting_factory)] ''k'' = Some (LazyLoad counting_factory)"
    by simp
  have b: "content (LazyLoad counting_factory) = None"
    by (simp add: LazyLoad_def)
  have c: "load_fnc (LazyLoad counting_factory) 0 = (Inr 0, 1)"
    by (simp add: LazyLoad_def counting_factory_def)
  note t = registry_get_idempotent [OF a b c]
  have d: "dict_setitem [(''k'', LazyLoad counting_factory)] ''k''
             (LazyLoad counting_factory\<lparr>content := Some 0\<rparr>)
           = [(''k'', \<lparr>load_fnc = counting_factory, content = Some 0\<rparr>)]"
    by (simp add: LazyLoad_def)
  from t [THEN conjunct1] t [THEN conjunct2, THEN conjunct1]
    t [THEN conjunct2, THEN conjunct2, rule_format, THEN conjunct1,
       of "[(''k'', \<lparr>load_fnc = counting_factory, content = Some 0\<rparr>)]" 1]
  show ?thesis unfolding d by simp
qed

text \<open>
  Claim C5 (failed realization is retryable). If the factory of an unrealized entry
  raises, get propagates the error and the registry is as before, the entry unrealized.
  The next get invokes the factory again: its result and its effect on the world are
  those of the factory; if the factory now returns a value, the entry is realized.
\<close>

theorem registry_get_failure_retryable:
  assumes "map_of r k = Some e" and "content e = None" and "load_fnc e w = (Inl err, w')"
  shows "registry_get r k w = (Inl err, r, w')
    \<and> \<not> realized r k
    \<and> fst (registry_get r k w') = fst (load_fnc e w')
    \<and> snd (snd (registry_get r k w')) = snd (load_fnc e w')
    \<and> (\<forall>v w''. load_fnc e w' = (Inr v, w'') \<longrightarrow>
          registry_get r k w' = (Inr v, dict_setitem r k (e\<lparr>content := Some v\<rparr>), w'')
          \<and> realized (dict_setitem r k (e\<lparr>content := Some v\<rparr>)) k)"
  using assms
  by (auto simp: registry_get_unrealized realized_def map_of_dict_setitem
        split: prod.splits sum.splits)

text \<open>
  With the factory that raises at its first invocation: the first get fails and leaves
  the entry unrealized, the second get returns the handle and the entry is realized.
\<close>

theorem registry_get_failure_retryable_witness:
  "registry_get [(''k'', LazyLoad flaky_factory)] ''k'' 0 =
     (Inl (Factory_Error ''first call''), [(''k'', LazyLoad flaky_factory)], 1)
   \<and> \<not> realized [(''k'', LazyLoad flaky_factory)] ''k''
   \<and> registry_get [(''k'', LazyLoad flaky_factory)] ''k'' 1 =
     (Inr 1, [(''k'', \<lparr>load_fnc = flaky_factory, content = Some 1\<rparr>)], 2)
   \<and> realized [(''k'', \<lparr>load_fnc = flaky_factory, content = Some 1\<rparr>)] ''k''"
proof -
  have a: "map_of [(''k'', LazyLoad flaky_factory)] ''k'' = Some (LazyLoad flaky_factory)"
    by simp
  have b: "content (LazyLoad flaky_factory) = None"
    by (simp add: LazyLoad_def)
  have c: "load_fnc (LazyLoad flaky_factory) 0 = (Inl (Factory_Error ''first call''), 1)"
    by (simp add: LazyLoad_def flaky_factory_def)
  have c': "load_fnc (LazyLoad flaky_factory) 1 = (Inr 1, 2)"
    by (simp add: LazyLoad_def flaky_factory_def)
  note t = registry_get_failure_retryable [OF a b c]
  have d: "dict_setitem [(''k'', LazyLoad flaky_factory)] ''k''
             (LazyLoad flaky_factory\<lparr>content := Some 1\<rparr>)
           = [(''k'', \<lparr>load_fnc = flaky_factory, content = Some 1\<rparr>)]"
    by (simp add: LazyLoad_def)
  note s = t [THEN conjunct2, THEN conjunct2, THEN conjunct2, THEN conjunct2, rule_format, OF c']
  from t [THEN conjunct1] t [THEN conjunct2, THEN conjunct1] s [unfolded d]
  show ?thesis by simp
qed

lemma populate_world: "snd (snd (populate pool kfs g)) = g"
  by (induction pool kfs g rule: populate.induct) (auto split: prod.splits sum.splits)

lemma register_cached: "cached (snd (register r k f)) k' = cached r k'"
proof (cases "k \<in> set (map fst r)")
  case True
  then show ?thesis by (simp add: register_def ukd_setitem_def)
next
  case False
  then have "map_of r k = None" by (simp add: map_of_eq_None_iff)
  then have "cached r k = None" by (simp add: cached_def)
  with False show ?thesis
    by (simp add: register_def ukd_setitem_def cached_dict_setitem LazyLoad_def)
qed

lemma populate_cached: "cached (fst (snd (populate pool kfs g))) k = cached pool k"
proof (induction pool kfs g rule: populate.induct)
  case (1 pool g)
  then show ?case by simp
next
  case (2 pool key fn kfs g)
  show ?case
  proof (cases "register pool key (call_lambda fn)")
    case (Pair res pool')
    then have c: "cached pool' k = cached pool k"
      using register_cached [of pool key "call_lambda fn" k] by simp
    show ?thesis
    proof (cases res)
      case (Inl e)
      with Pair c show ?thesis by simp
    next
      case (Inr u)
      with Pair c "2.IH" [of res pool' u] show ?thesis by simp
    qed
  qed
qed

lemma base_model_pool_unrealized: "cached base_model_pool k = None"
  unfolding base_model_pool_def populate_cached by (simp add: cached_def)

lemma items_loop_Inr:
  "items_loop r ks w = (Inr kvs, r', w') \<Longrightarrow>
     map fst kvs = ks \<and> map fst r' = map fst r
     \<and> (\<forall>k v. cached r k = Some v \<longrightarrow> cached r' k = Some v)
     \<and> (\<forall>(k, v) \<in> set kvs. cached r' k = Some v)"
proof (induction ks arbitrary: r w kvs)
  case Nil
  then show ?case by auto
next
  case (Cons k ks)
  from Cons.prems obtain v r1 w1 kvs1 where
    g: "registry_get r k w = (Inr v, r1, w1)" and
    l: "items_loop r1 ks w1 = (Inr kvs1, r', w')" and
    kvs: "kvs = (k, v) # kvs1"
    by (auto split: prod.splits sum.splits)
  note ih = Cons.IH [OF l]
  note g1 = registry_get_Inr [OF g]
  from ih g1(1) have "cached r' k = Some v" by blast
  moreover from ih g1(2) have "map fst r' = map fst r" by simp
  moreover have "\<forall>k0 v0. cached r k0 = Some v0 \<longrightarrow> cached r' k0 = Some v0"
    using ih g1(3) by blast
  ultimately show ?case using ih kvs by auto
qed

text \<open>
  Claim C6 (lazy non-realization on enumeration). keys returns the identifiers and leaves
  registry and world as they are, so it invokes no factory. The population loop of lines
  156 to 159 leaves the globals as they are and realizes nothing: what is cached after
  it is what was cached before, and no entry of \<open>base_model_pool\<close> is realized. items,
  when it returns, has yielded one pair for every identifier, in order, and every entry
  it yielded is realized, with the yielded value cached.
\<close>

theorem keys_lazy_items_force:
  "registry_keys r w = (map fst r, r, w)
   \<and> snd (snd (populate pool kfs g)) = g
   \<and> cached (fst (snd (populate pool kfs g))) k = cached pool k
   \<and> \<not> realized base_model_pool k
   \<and> (registry_items r w = (Inr kvs, r', w') \<longrightarrow>
        map fst kvs = map fst r \<and> map fst r' = map fst r
        \<and> (\<forall>(k, v) \<in> set kvs. cached r' k = Some v)
        \<and> (\<forall>k \<in> set (map fst r). realized r' k))"
proof -
  have "map fst kvs = map fst r \<and> map fst r' = map fst r
        \<and> (\<forall>(k, v) \<in> set kvs. cached r' k = Some v)
        \<and> (\<forall>k \<in> set (map fst r). realized r' k)"
    if "registry_items r w = (Inr kvs, r', w')"
  proof -
    from that have "items_loop r (map fst r) w = (Inr kvs, r', w')"
      by (simp add: registry_items_def)
    note l = items_loop_Inr [OF this]
    have "realized r' k" if "k \<in> set (map fst r)" for k
    proof -
      from that l have "k \<in> fst ` set kvs" by (metis set_map)
      then obtain v where "(k, v) \<in> set kvs" by auto
      with l have "cached r' k = Some v" by blast
      then show ?thesis by (simp add: realized_cached)
    qed
    with l show ?thesis by blast
  qed
  then show ?thesis
    by (simp add: registry_keys_def populate_world populate_cached realized_cached
          base_model_pool_unrealized)
qed

text \<open>
  Two unrealized entries with counting factories: keys leaves the count at zero, items
  yields both handles, leaves the count at two and both entries realized.
\<close>

theorem keys_lazy_items_force_witness:
  "registry_keys [(''a'', LazyLoad counting_factory), (''b'', LazyLoad counting_factory)] 0 =
     ([''a'', ''b''], [(''a'', LazyLoad counting_factory), (''b'', LazyLoad counting_factory)], 0)
   \<and> registry_items [(''a'', LazyLoad counting_factory), (''b'', LazyLoad counting_factory)] 0 =
       (Inr [(''a'', 0), (''b'', 1)],
        [(''a'', \<lparr>load_fnc = counting_factory, content = Some 0\<rparr>),
         (''b'', \<lparr>load_fnc = counting_factory, content = Some 1\<rparr>)], 2)
   \<and> realized [(''a'', \<lparr>load_fnc = counting_factory, content = Some 0\<rparr>),
         (''b'', \<lparr>load_fnc = counting_factory, content = Some 1\<rparr>)] ''b''"
proof -
  let ?r = "[(''a'', LazyLoad counting_factory), (''b'', LazyLoad counting_factory)]"
  let ?r' = "[(''a'', \<lparr>load_fnc = counting_factory, content = Some 0\<rparr>),
         (''b'', \<lparr>load_fnc = counting_factory, content = Some (1::nat)\<rparr>)]"
  have i: "registry_items ?r 0 = (Inr [(''a'', 0), (''b'', 1)], ?r', 2)"
    by (simp add: registry_items_def registry_get_def LazyLoad_def counting_factory_def)
  have m: "''b'' \<in> set (map fst ?r)" by simp
  note t = keys_lazy_items_force [of ?r 0 "[]" "[]" Map.empty "''a''" "[(''a'', 0), (''b'', 1)]" ?r' 2]
  note t1 = t [THEN conjunct1]
  note t5 = t [THEN conjunct2, THEN conjunct2, THEN conjunct2, THEN conjunct2, rule_format, OF i]
  note t5d = t5 [THEN conjunct2, THEN conjunct2, THEN conjunct2, rule_format, OF m]
  from t1 i t5d show ?thesis by simp
qed

section \<open>The merge of the pools\<close>

lemma store_items_append:
  "store_items d (xs @ ys) =
     (case store_items d xs of
        (Inl e, d') \<Rightarrow> (Inl e, d')
      | (Inr u, d') \<Rightarrow> store_items d' ys)"
  by (induction d xs rule: store_items.induct) (auto split: prod.splits sum.splits)

lemma merge_pools_concat: "merge_pools d pools = store_items d (concat pools)"
  by (induction d pools rule: merge_pools.induct)
     (auto simp: store_items_append split: prod.splits sum.splits)

lemma store_items_distinct:
  "distinct (map fst (d @ items)) \<Longrightarrow> store_items d items = (Inr (), d @ items)"
proof (induction items arbitrary: d)
  case Nil
  then show ?case by simp
next
  case (Cons kv items)
  obtain k v where kv: "kv = (k, v)" by (cases kv)
  from Cons.prems kv have fresh: "k \<notin> set (map fst d)" by auto
  from Cons.prems kv have "distinct (map fst ((d @ [(k, v)]) @ items))" by auto
  from Cons.IH [OF this] fresh kv show ?case
    by (simp add: ukd_setitem_def dict_setitem_fresh)
qed

lemma store_items_overlap:
  "distinct (map fst d) \<Longrightarrow> \<not> distinct (map fst (d @ items)) \<Longrightarrow>
     \<exists>k v ps. store_items d items = (Inl (Duplicate_Key k), d @ ps)
       \<and> prefix (ps @ [(k, v)]) items \<and> k \<in> set (map fst (d @ ps))"
proof (induction items arbitrary: d)
  case Nil
  then show ?case by simp
next
  case (Cons kv items)
  obtain k v where kv: "kv = (k, v)" by (cases kv)
  show ?case
  proof (cases "k \<in> set (map fst d)")
    case True
    then have "store_items d (kv # items) = (Inl (Duplicate_Key k), d @ [])"
      by (simp add: kv ukd_setitem_def)
    moreover have "prefix ([] @ [(k, v)]) (kv # items)" by (simp add: kv)
    moreover from True have "k \<in> set (map fst (d @ []))" by simp
    ultimately show ?thesis by blast
  next
    case False
    with Cons.prems have d1: "distinct (map fst (d @ [(k, v)]))" by simp
    from Cons.prems kv have d2: "\<not> distinct (map fst ((d @ [(k, v)]) @ items))" by simp
    from Cons.IH [OF d1 d2] obtain k' v' ps where
      s: "store_items (d @ [(k, v)]) items = (Inl (Duplicate_Key k'), (d @ [(k, v)]) @ ps)"
      and p: "prefix (ps @ [(k', v')]) items"
      and m: "k' \<in> set (map fst ((d @ [(k, v)]) @ ps))"
      by blast
    from s False have "store_items d (kv # items) = (Inl (Duplicate_Key k'), d @ ((k, v) # ps))"
      by (simp add: kv ukd_setitem_def dict_setitem_fresh)
    moreover from p have "prefix (((k, v) # ps) @ [(k', v')]) (kv # items)" by (simp add: kv)
    moreover from m have "k' \<in> set (map fst (d @ ((k, v) # ps)))" by simp
    ultimately show ?thesis by blast
  qed
qed

lemma ukd_setitem_keeps:
  assumes "map_of d k = Some v"
  shows "map_of (snd (ukd_setitem d k' v')) k = Some v"
proof (cases "k' \<in> set (map fst d)")
  case True
  with assms show ?thesis by (simp add: ukd_setitem_def)
next
  case False
  then have "map_of d k' = None" by (simp add: map_of_eq_None_iff)
  with assms have "k \<noteq> k'" by auto
  with assms False show ?thesis by (simp add: ukd_setitem_def map_of_dict_setitem)
qed

lemma store_items_keeps:
  "map_of d k = Some v \<Longrightarrow> map_of (snd (store_items d items)) k = Some v"
proof (induction d items rule: store_items.induct)
  case (1 d)
  then show ?case by simp
next
  case (2 d ident model rest)
  show ?case
  proof (cases "ukd_setitem d ident model")
    case (Pair res d')
    with "2.prems" have k: "map_of d' k = Some v"
      using ukd_setitem_keeps [of d k v ident model] by simp
    show ?thesis
    proof (cases res)
      case (Inl e)
      with Pair k show ?thesis by simp
    next
      case (Inr u)
      with Pair k "2.IH" [of res d' u] show ?thesis by simp
    qed
  qed
qed

text \<open>
  Claim C3 (merge overwrite precedence), as stated, has the later pool's entry replace
  the earlier one: merging \<open>A = {x: 1}\<close> and \<open>B = {x: 2, y: 3}\<close> in this order would
  give \<open>{x: 2, y: 3}\<close>. The loops of lines 12 to 16 store into a Unique-Key
  Dictionary: the merge stops with a Duplicate-Key error at \<open>x\<close>, which keeps the value
  1, and \<open>y\<close> is never stored.
\<close>

theorem merge_example_counterexample:
  "fst (brain_translated_pool [(''x'', 1::int)] [(''x'', 2), (''y'', 3)]) = Inl (Duplicate_Key ''x'')
   \<and> map_of (snd (brain_translated_pool [(''x'', 1::int)] [(''x'', 2), (''y'', 3)])) ''x'' \<noteq> Some 2
   \<and> map_of (snd (brain_translated_pool [(''x'', 1::int)] [(''x'', 2), (''y'', 3)])) ''y'' \<noteq> Some 3"
  by (simp add: brain_translated_pool_def ukd_setitem_def)

text \<open>
  Claim C3 (merge), amended. The combined registry is filled by storing the items of the
  pools in the given order into a Unique-Key Dictionary. When the identifiers of all
  pools (and of what the registry already holds) are pairwise different, the merge
  succeeds and the result holds every entry of every pool, in order. When an identifier
  occurs more than once, the merge fails with a Duplicate-Key error for the first such
  identifier, at its later occurrence; the registry then holds what was stored before
  it. In either case an entry once stored is never replaced.
\<close>

theorem merge_rejects_shared_identifiers:
  "brain_translated_pool a b = merge_pools [] [a, b]
   \<and> (distinct (map fst (d @ concat pools)) \<longrightarrow> merge_pools d pools = (Inr (), d @ concat pools))
   \<and> (distinct (map fst d) \<and> \<not> distinct (map fst (d @ concat pools)) \<longrightarrow>
        (\<exists>k v ps. merge_pools d pools = (Inl (Duplicate_Key k), d @ ps)
           \<and> prefix (ps @ [(k, v)]) (concat pools) \<and> k \<in> set (map fst (d @ ps))))
   \<and> (\<forall>k v. map_of d k = Some v \<longrightarrow> map_of (snd (merge_pools d pools)) k = Some v)"
proof (intro conjI impI allI)
  show "brain_translated_pool a b = merge_pools [] [a, b]"
    by (simp add: brain_translated_pool_def)
next
  assume "distinct (map fst (d @ concat pools))"
  then show "merge_pools d pools = (Inr (), d @ concat pools)"
    unfolding merge_pools_concat by (rule store_items_distinct)
next
  assume "distinct (map fst d) \<and> \<not> distinct (map fst (d @ concat pools))"
  then show "\<exists>k v ps. merge_pools d pools = (Inl (Duplicate_Key k), d @ ps)
           \<and> prefix (ps @ [(k, v)]) (concat pools) \<and> k \<in> set (map fst (d @ ps))"
    unfolding merge_pools_concat using store_items_overlap by blast
next
  fix k v
  assume "map_of d k = Some v"
  then show "map_of (snd (merge_pools d pools)) k = Some v"
    unfolding merge_pools_concat by (rule store_items_keeps)
qed

text \<open>
  Pools with different identifiers merge; the pools \<open>A\<close> and \<open>B\<close> of the claim do
  not, in either order.
\<close>

theorem merge_rejects_shared_identifiers_witness:
  "distinct (map fst ([] @ concat [ [(''x'', 1::int)], [(''y'', 3)]]))
   \<and> brain_translated_pool [(''x'', 1::int)] [(''y'', 3)] = (Inr (), [(''x'', 1), (''y'', 3)])
   \<and> \<not> distinct (map fst ([] @ concat [ [(''x'', 1::int)], [(''x'', 2), (''y'', 3)]]))
   \<and> brain_translated_pool [(''x'', 1::int)] [(''x'', 2), (''y'', 3)]
        = (Inl (Duplicate_Key ''x''), [(''x'', 1)])
   \<and> brain_translated_pool [(''x'', 2), (''y'', 3)] [(''x'', 1::int)]
        = (Inl (Duplicate_Key ''x''), [(''x'', 2), (''y'', 3)])"
proof -
  have d1: "distinct (map fst ([] @ concat [ [(''x'', 1::int)], [(''y'', 3)]]))" by simp
  have d2: "\<not> distinct (map fst ([] @ concat [ [(''x'', 1::int)], [(''x'', 2), (''y'', 3)]]))" by simp
  note t = merge_rejects_shared_identifiers
    [of "[(''x'', 1::int)]" "[(''y'', 3)]" "[]" "[ [(''x'', 1::int)], [(''y'', 3)]]"]
  from t [THEN conjunct1] t [THEN conjunct2, THEN conjunct1, rule_format, OF d1]
  have a: "brain_translated_pool [(''x'', 1::int)] [(''y'', 3)] = (Inr (), [(''x'', 1), (''y'', 3)])"
    by simp
  have b: "brain_translated_pool [(''x'', 1::int)] [(''x'', 2), (''y'', 3)]
        = (Inl (Duplicate_Key ''x''), [(''x'', 1)])"
    by (simp add: brain_translated_pool_def ukd_setitem_def)
  have c: "brain_translated_pool [(''x'', 2), (''y'', 3)] [(''x'', 1::int)]
        = (Inl (Duplicate_Key ''x''), [(''x'', 2), (''y'', 3)])"
    by (simp add: brain_translated_pool_def ukd_setitem_def)
  from d1 a d2 b c show ?thesis by (intro conjI)
qed

section \<open>Construction of a TF-Slim model\<close>

text \<open>
  Claim C8 (unsupported preprocessing kind fails fast). For a preprocessing type other
  than \<^verbatim>\<open>'vgg'\<close> and \<^verbatim>\<open>'inception'\<close>, \<^verbatim>\<open>_init_preprocessing\<close> fails with the
  assertion error and so does \<^verbatim>\<open>init\<close>, whatever its other arguments, leaving the
  world untouched: no network is looked up, no weights are searched or fetched and no
  wrapper is returned. For the two supported types the assertion does not fire and the
  preprocessing of that type is returned.
\<close>

theorem init_rejects_unknown_preprocessing:
  "(preprocessing_type \<notin> {''vgg'', ''inception''} \<longrightarrow>
      init_preprocessing preprocessing_type image_size = Inl Assertion_Error
      \<and> init identifier preprocessing_type image_size net_name labels_off batch w
          = (Inl Assertion_Error, w))
   \<and> (preprocessing_type \<in> {''vgg'', ''inception''} \<longrightarrow>
      init_preprocessing preprocessing_type image_size =
        Inr (if preprocessing_type = ''vgg'' then Vgg_Preprocessing image_size
             else Inception_Preprocessing image_size))"
  by (auto simp: init_def init_preprocessing_def)

text \<open>The type \<^verbatim>\<open>'caffe'\<close> is rejected, the type \<^verbatim>\<open>'vgg'\<close> is accepted.\<close>

theorem init_rejects_unknown_preprocessing_witness:
  "''caffe'' \<notin> {''vgg'', ''inception''}
   \<and> init ''resnet_v1_50'' ''caffe'' 224 None 0 64 example_world = (Inl Assertion_Error, example_world)
   \<and> ''vgg'' \<in> {''vgg'', ''inception''}
   \<and> init_preprocessing ''vgg'' 224 = Inr (Vgg_Preprocessing 224)"
proof -
  have a: "''caffe'' \<notin> {''vgg'', ''inception''}" by simp
  have b: "''vgg'' \<in> {''vgg'', ''inception''}" by simp
  note t = init_rejects_unknown_preprocessing
  from t [of "''caffe''" 224 "''resnet_v1_50''" None 0 64 example_world, THEN conjunct1, rule_format, OF a]
    t [of "''vgg''" 224, THEN conjunct2, rule_format, OF b] a b
  show ?thesis by simp
qed


lemma contains_append: "contains sep n \<Longrightarrow> contains sep (p @ n)"
  by (induction p) auto

lemma contains_os_path_join: "contains sep n \<Longrightarrow> contains sep (os_path_join p [n])"
  using contains_append [of sep n p] contains_append [of sep n "p @ ''/''"] by simp

lemma before_first_prefix: "contains sep s \<Longrightarrow> prefix (before_first sep s @ sep) s"
  by (induction s) auto

lemma before_first_least: "s = p @ sep @ r \<Longrightarrow> length (before_first sep s) \<le> length p"
proof (induction s arbitrary: p)
  case Nil
  then show ?case by simp
next
  case (Cons c cs)
  show ?case
  proof (cases "prefix sep (c # cs)")
    case True
    then show ?thesis by simp
  next
    case False
    with Cons.prems have "p \<noteq> []" by (auto simp: prefix_def)
    with Cons.prems obtain p' where p: "p = c # p'" and cs: "cs = p' @ sep @ r"
      by (cases p) auto
    from Cons.IH [OF cs] False p show ?thesis by simp
  qed
qed

lemma isdir_download_folder: "isdir (snd (download_folder key dest w)) = isdir w"
  by (simp add: download_folder_def Let_def split: option.splits)

lemma find_model_weights_existing:
  "isdir w (model_path w name) \<Longrightarrow>
     find_model_weights name w =
       (case filter matches_ckpt (listing w (model_path w name)) of
          [] \<Rightarrow> (Inl Assertion_Error, w)
        | n # ns \<Rightarrow>
            (Inr (before_first ''.ckpt'' (os_path_join (model_path w name) [n]) @ ''.ckpt''), w))"
  by (simp add: find_model_weights_def Let_def glob_ckpt_def split: list.splits)

lemma find_model_weights_missing:
  "\<not> isdir w (model_path w name) \<Longrightarrow>
     find_model_weights name w =
       (let mp = model_path w name;
            w1 = (makedirs mp w)\<lparr>downloads := downloads w @ [(''slim/'' @ name, mp)]\<rparr>
        in case remote w (''slim/'' @ name) of
             None \<Rightarrow> (Inl (Storage_Error (''slim/'' @ name)), w1)
           | Some names \<Rightarrow>
               (case filter matches_ckpt names of
                  [] \<Rightarrow> (Inl Assertion_Error, w1\<lparr>listing := (listing w)(mp := names)\<rparr>)
                | n # ns \<Rightarrow>
                    (Inr (before_first ''.ckpt'' (os_path_join mp [n]) @ ''.ckpt''),
                     w1\<lparr>listing := (listing w)(mp := names)\<rparr>)))"
  by (simp add: find_model_weights_def Let_def glob_ckpt_def download_folder_def makedirs_def
        split: list.splits option.splits)

text \<open>
  Claim C9 (weight-cache fetch policy). The cache directory of a model name is the name
  joined to the weights directory, which is the weights-directory override if set, else
  \<^verbatim>\<open>model-weights/slim\<close> under the expanded home override if set, else under the
  expanded \<^verbatim>\<open>~/.candidate_models\<close>. If that directory does not exist,
  \<^verbatim>\<open>_find_model_weights\<close> creates it and calls the fetch exactly once, with the key
  \<^verbatim>\<open>slim/\<close> plus the name and that directory as destination; a successful fetch
  leaves the directory holding the fetched files, a failed one propagates its error. If
  the directory exists, the world is left exactly as it was: no fetch, no validation.
\<close>

theorem find_model_weights_fetch_policy:
  "weights_path w =
     (case environ w ''CM_TSLIM_WEIGHTS_DIR'' of
        Some d \<Rightarrow> d
      | None \<Rightarrow>
          os_path_join
            (expanduser w (case environ w ''CM_HOME'' of
                             Some h \<Rightarrow> h | None \<Rightarrow> ''~/.candidate_models''))
            [''model-weights'', ''slim''])
   \<and> model_path w name = os_path_join (weights_path w) [name]
   \<and> (\<not> isdir w (model_path w name) \<longrightarrow>
        isdir (snd (find_model_weights name w)) (model_path w name)
        \<and> downloads (snd (find_model_weights name w))
            = downloads w @ [(''slim/'' @ name, model_path w name)]
        \<and> (\<forall>names. remote w (''slim/'' @ name) = Some names \<longrightarrow>
              listing (snd (find_model_weights name w)) (model_path w name) = names)
        \<and> (remote w (''slim/'' @ name) = None \<longrightarrow>
              fst (find_model_weights name w) = Inl (Storage_Error (''slim/'' @ name))))
   \<and> (isdir w (model_path w name) \<longrightarrow> snd (find_model_weights name w) = w)"
proof (intro conjI impI allI)
  show "weights_path w =
     (case environ w ''CM_TSLIM_WEIGHTS_DIR'' of
        Some d \<Rightarrow> d
      | None \<Rightarrow>
          os_path_join
            (expanduser w (case environ w ''CM_HOME'' of
                             Some h \<Rightarrow> h | None \<Rightarrow> ''~/.candidate_models''))
            [''model-weights'', ''slim''])"
    by (simp add: weights_path_def framework_home_def getenv_def split: option.splits)
next
  show "model_path w name = os_path_join (weights_path w) [name]"
    by (simp only: model_path_def)
next
  assume m: "\<not> isdir w (model_path w name)"
  note f = find_model_weights_missing [OF m]
  show "isdir (snd (find_model_weights name w)) (model_path w name)"
    by (simp add: f Let_def makedirs_def split: option.splits list.splits)
  show "downloads (snd (find_model_weights name w))
            = downloads w @ [(''slim/'' @ name, model_path w name)]"
    by (simp add: f Let_def makedirs_def split: option.splits list.splits)
  show "listing (snd (find_model_weights name w)) (model_path w name) = names"
    if "remote w (''slim/'' @ name) = Some names" for names
    using that by (simp add: f Let_def makedirs_def split: list.splits)
  show "fst (find_model_weights name w) = Inl (Storage_Error (''slim/'' @ name))"
    if "remote w (''slim/'' @ name) = None"
    using that by (simp add: f Let_def)
next
  assume "isdir w (model_path w name)"
  then show "snd (find_model_weights name w) = w"
    by (simp add: find_model_weights_existing split: list.splits)
qed


lemma example_paths:
  "model_path example_world ''resnet_v1_50'' = ''/data/cm/model-weights/slim/resnet_v1_50''"
  "model_path example_world ''inception_v1'' = ''/data/cm/model-weights/slim/inception_v1''"
  "model_path example_world ''vgg_16'' = ''/data/cm/model-weights/slim/vgg_16''"
  by (simp_all add: model_path_def weights_path_def framework_home_def getenv_def example_world_def)

text \<open>
  In the example world \<^verbatim>\<open>resnet_v1_50\<close> is fetched into its new directory, and
  looking up \<^verbatim>\<open>inception_v1\<close> changes nothing.
\<close>

theorem find_model_weights_fetch_policy_witness:
  "\<not> isdir example_world (model_path example_world ''resnet_v1_50'')
   \<and> downloads (snd (find_model_weights ''resnet_v1_50'' example_world))
       = [(''slim/resnet_v1_50'', ''/data/cm/model-weights/slim/resnet_v1_50'')]
   \<and> listing (snd (find_model_weights ''resnet_v1_50'' example_world))
        ''/data/cm/model-weights/slim/resnet_v1_50'' = [''resnet_v1_50.ckpt'']
   \<and> isdir example_world (model_path example_world ''inception_v1'')
   \<and> snd (find_model_weights ''inception_v1'' example_world) = example_world"
proof -
  have a: "\<not> isdir example_world (model_path example_world ''resnet_v1_50'')"
    unfolding example_paths by (simp add: example_world_def)
  have b: "isdir example_world (model_path example_world ''inception_v1'')"
    unfolding example_paths by (simp add: example_world_def)
  have c: "remote example_world (''slim/'' @ ''resnet_v1_50'') = Some [''resnet_v1_50.ckpt'']"
    by (simp add: example_world_def)
  have d: "downloads example_world = []"
    by (simp add: example_world_def)
  note t = find_model_weights_fetch_policy [of example_world "''resnet_v1_50''",
      THEN conjunct2, THEN conjunct2, THEN conjunct1, rule_format, OF a]
  note u = find_model_weights_fetch_policy [of example_world "''inception_v1''",
      THEN conjunct2, THEN conjunct2, THEN conjunct2, rule_format, OF b]
  note t2 = t [THEN conjunct2, THEN conjunct1, unfolded example_paths d]
  note t3 = t [THEN conjunct2, THEN conjunct2, THEN conjunct1, rule_format, OF c,
      unfolded example_paths]
  from a b t2 t3 u show ?thesis by simp
qed

text \<open>
  Claim C10 (checkpoint presence precondition). An existing directory without an entry
  that matches \<^verbatim>\<open>*.ckpt*\<close> makes \<^verbatim>\<open>_find_model_weights\<close> fail with the assertion
  error and leaves the world as it was, so nothing is fetched again; an existing
  directory with such an entry gives the path of the first one, cut before the first
  \<^verbatim>\<open>.ckpt\<close>, with \<^verbatim>\<open>.ckpt\<close> appended. A fetch that brings no such entry ends in the
  assertion error as well. Whenever a path is returned, it comes from the first matching
  entry of the directory in this way, it is a prefix of that entry's path, and no
  occurrence of \<^verbatim>\<open>.ckpt\<close> in that path ends before it does.
\<close>

theorem find_model_weights_checkpoint:
  "(isdir w (model_path w name)
      \<and> filter matches_ckpt (listing w (model_path w name)) = [] \<longrightarrow>
        find_model_weights name w = (Inl Assertion_Error, w))
   \<and> (\<forall>n ns. isdir w (model_path w name)
      \<and> filter matches_ckpt (listing w (model_path w name)) = n # ns \<longrightarrow>
        find_model_weights name w =
          (Inr (before_first ''.ckpt'' (os_path_join (model_path w name) [n]) @ ''.ckpt''), w))
   \<and> (\<forall>names. \<not> isdir w (model_path w name)
      \<and> remote w (''slim/'' @ name) = Some names \<and> filter matches_ckpt names = [] \<longrightarrow>
        fst (find_model_weights name w) = Inl Assertion_Error)
   \<and> (\<forall>path. fst (find_model_weights name w) = Inr path \<longrightarrow>
        (\<exists>n ns. filter matches_ckpt
                   (listing (snd (find_model_weights name w)) (model_path w name)) = n # ns
           \<and> path = before_first ''.ckpt'' (os_path_join (model_path w name) [n]) @ ''.ckpt''
           \<and> prefix path (os_path_join (model_path w name) [n])
           \<and> (\<forall>p r. os_path_join (model_path w name) [n] = p @ ''.ckpt'' @ r \<longrightarrow>
                  length path \<le> length (p @ ''.ckpt''))))"
proof (intro conjI impI allI)
  assume "isdir w (model_path w name)
      \<and> filter matches_ckpt (listing w (model_path w name)) = []"
  then show "find_model_weights name w = (Inl Assertion_Error, w)"
    by (simp add: find_model_weights_existing)
next
  fix n ns
  assume "isdir w (model_path w name)
      \<and> filter matches_ckpt (listing w (model_path w name)) = n # ns"
  then show "find_model_weights name w =
          (Inr (before_first ''.ckpt'' (os_path_join (model_path w name) [n]) @ ''.ckpt''), w)"
    by (simp add: find_model_weights_existing)
next
  fix names
  assume "\<not> isdir w (model_path w name)
      \<and> remote w (''slim/'' @ name) = Some names \<and> filter matches_ckpt names = []"
  then show "fst (find_model_weights name w) = Inl Assertion_Error"
    by (simp add: find_model_weights_missing Let_def)
next
  fix path
  assume ok: "fst (find_model_weights name w) = Inr path"
  let ?mp = "model_path w name"
  let ?w' = "snd (find_model_weights name w)"
  have "\<exists>n ns. filter matches_ckpt (listing ?w' ?mp) = n # ns
           \<and> path = before_first ''.ckpt'' (os_path_join ?mp [n]) @ ''.ckpt''"
  proof (cases "isdir w ?mp")
    case True
    with ok show ?thesis
      by (auto simp: find_model_weights_existing split: list.splits)
  next
    case False
    with ok show ?thesis
      by (auto simp: find_model_weights_missing Let_def split: list.splits option.splits)
  qed
  then obtain n ns where
    f: "filter matches_ckpt (listing ?w' ?mp) = n # ns" and
    p: "path = before_first ''.ckpt'' (os_path_join ?mp [n]) @ ''.ckpt''"
    by blast
  from f have "n \<in> set (filter matches_ckpt (listing ?w' ?mp))" by simp
  then have "contains ''.ckpt'' n" by (simp add: matches_ckpt_def)
  then have "contains ''.ckpt'' (os_path_join ?mp [n])" by (rule contains_os_path_join)
  then have pre: "prefix path (os_path_join ?mp [n])"
    unfolding p by (rule before_first_prefix)
  have least: "length path \<le> length (p' @ ''.ckpt'')"
    if "os_path_join ?mp [n] = p' @ ''.ckpt'' @ r" for p' r
    using before_first_least [OF that] by (simp add: p)
  from f p pre least
  show "\<exists>n ns. filter matches_ckpt (listing ?w' ?mp) = n # ns
           \<and> path = before_first ''.ckpt'' (os_path_join ?mp [n]) @ ''.ckpt''
           \<and> prefix path (os_path_join ?mp [n])
           \<and> (\<forall>p r. os_path_join ?mp [n] = p @ ''.ckpt'' @ r \<longrightarrow>
                  length path \<le> length (p @ ''.ckpt''))"
    by blast
qed

text \<open>
  In the example world the empty directory of \<^verbatim>\<open>vgg_16\<close> fails the assertion, and
  \<^verbatim>\<open>inception_v1\<close> yields the path of its checkpoint.
\<close>

theorem find_model_weights_checkpoint_witness:
  "isdir example_world (model_path example_world ''vgg_16'')
   \<and> filter matches_ckpt (listing example_world (model_path example_world ''vgg_16'')) = []
   \<and> find_model_weights ''vgg_16'' example_world = (Inl Assertion_Error, example_world)
   \<and> find_model_weights ''inception_v1'' example_world =
       (Inr ''/data/cm/model-weights/slim/inception_v1/inception_v1.ckpt'', example_world)"
proof -
  have a: "isdir example_world (model_path example_world ''vgg_16'')
      \<and> filter matches_ckpt (listing example_world (model_path example_world ''vgg_16'')) = []"
    unfolding example_paths by (simp add: example_world_def)
  have b: "isdir example_world (model_path example_world ''inception_v1'')
      \<and> filter matches_ckpt (listing example_world (model_path example_world ''inception_v1''))
          = [''inception_v1.ckpt.index'', ''inception_v1.ckpt.data'']"
    unfolding example_paths by (simp add: example_world_def matches_ckpt_def)
  note t = find_model_weights_checkpoint [of example_world "''vgg_16''",
      THEN conjunct1, rule_format, OF a]
  note u = find_model_weights_checkpoint [of example_world "''inception_v1''",
      THEN conjunct2, THEN conjunct1, rule_format, OF b, unfolded example_paths]
  from a t u show ?thesis by simp
qed

end
